theory Spec2Isabelle
  imports Main
begin

section \<open>Tensors\<close>

text \<open>
  A tensor is its shape together with its elements in row-major order, the layout of
  a contiguous torch tensor: the element at multi-index \<open>[i0, .., ik]\<close> of a tensor of
  shape \<open>[d0, .., dk]\<close> sits at flat position \<open>(..(i0 * d1 + i1) * d2 ..) * dk + ik\<close>.
  The element type is left open; no operation of the adapter looks at an element.
\<close>

record 'a tensor =
  shape :: "nat list"
  data :: "'a list"

definition well_formed :: "'a tensor \<Rightarrow> bool" where
  "well_formed t = (length (data t) = prod_list (shape t))"

definition dim :: "'a tensor \<Rightarrow> nat" where
  "dim t = length (shape t)"

text \<open>Python errors. What the wrapped model raises comes from outside this module and is
  carried unchanged as \<open>ModelError\<close>, whatever its Python class.\<close>

datatype 'e error =
    ValueError string
  | IndexError
  | KeyError string
  | RuntimeError string
  | ModelError 'e

text \<open>\<^verbatim>\<open>t.squeeze()\<close>: drops every dimension of size 1; the elements stay as they are.\<close>

definition squeeze :: "'a tensor \<Rightarrow> 'a tensor" where
  "squeeze t = t\<lparr>shape := filter (\<lambda>d. d \<noteq> 1) (shape t)\<rparr>"

text \<open>\<^verbatim>\<open>t.unsqueeze(-1)\<close>: appends a dimension of size 1.\<close>

definition unsqueeze_last :: "'a tensor \<Rightarrow> 'a tensor" where
  "unsqueeze_last t = t\<lparr>shape := shape t @ [1]\<rparr>"

text \<open>\<^verbatim>\<open>t[..., idx]\<close> for \<open>idx \<ge> 0\<close>: selects index \<open>idx\<close> of the last dimension.
  torch raises IndexError on a 0-dimensional tensor and on an index out of range.\<close>

definition select_last :: "'a tensor \<Rightarrow> nat \<Rightarrow> 'e error + 'a tensor" where
  "select_last t idx =
     (if shape t = [] then Inl IndexError
      else if last (shape t) \<le> idx then Inl IndexError
      else Inr \<lparr>shape = butlast (shape t),
                data = map (\<lambda>j. data t ! (j * last (shape t) + idx))
                           [0..<prod_list (butlast (shape t))]\<rparr>)"

text \<open>\<^verbatim>\<open>torch.stack(ts, dim=-1)\<close>: the tensors must be at least one and of one shape
  (torch raises RuntimeError otherwise); the result has a new last dimension of size
  \<open>len(ts)\<close>, along which the tensors are laid.\<close>

definition same_shapes :: "'a tensor list \<Rightarrow> bool" where
  "same_shapes ts = list_all (\<lambda>t. shape t = shape (hd ts)) ts"

definition stack_last :: "'a tensor list \<Rightarrow> 'e error + 'a tensor" where
  "stack_last ts =
     (if ts = [] then Inl (RuntimeError ''stack expects a non-empty TensorList'')
      else if \<not> same_shapes ts
        then Inl (RuntimeError ''stack expects each tensor to be equal size'')
      else Inr \<lparr>shape = shape (hd ts) @ [length ts],
                data = concat (map (\<lambda>j. map (\<lambda>t. data t ! j) ts)
                                   [0..<prod_list (shape (hd ts))])\<rparr>)"

text \<open>Reading one element, \<^verbatim>\<open>t[i0, .., ik]\<close>: the multi-index must have one entry per
  dimension, each within its dimension.\<close>

definition valid_index :: "nat list \<Rightarrow> nat list \<Rightarrow> bool" where
  "valid_index s js = list_all2 (\<lambda>j d. j < d) js s"

definition flat_index :: "nat list \<Rightarrow> nat list \<Rightarrow> nat" where
  "flat_index s js = foldl (\<lambda>acc (d, j). acc * d + j) 0 (zip s js)"

definition item_at :: "'a tensor \<Rightarrow> nat list \<Rightarrow> 'a option" where
  "item_at t js =
     (if valid_index (shape t) js then Some (data t ! flat_index (shape t) js) else None)"

section \<open>The error message of the rank check\<close>

fun digit_char :: "nat \<Rightarrow> char" where
  "digit_char n = char_of (48 + n)"

fun str_nat :: "nat \<Rightarrow> string" where
  "str_nat n = (if n < 10 then [digit_char n] else str_nat (n div 10) @ [digit_char (n mod 10)])"

fun join_comma :: "string list \<Rightarrow> string" where
  "join_comma [] = []"
| "join_comma [s] = s"
| "join_comma (s # r) = s @ '', '' @ join_comma r"

text \<open>\<^verbatim>\<open>str(tuple(x.shape))\<close>: \<^verbatim>\<open>()\<close>, \<^verbatim>\<open>(5,)\<close>, \<^verbatim>\<open>(2, 3)\<close>.\<close>

fun tuple_repr :: "nat list \<Rightarrow> string" where
  "tuple_repr [] = ''()''"
| "tuple_repr [n] = ''('' @ str_nat n @ '',)''"
| "tuple_repr ns = ''('' @ join_comma (map str_nat ns) @ '')''"

definition expected_text :: string where
  "expected_text = ''Expected input dim to be at least 2 ([n_samples, n_features]), ''"

definition received_text :: string where
  "received_text = [CHR 0x0A] @ replicate 16 CHR '' '' @ ''received: ''"

definition invalid_input_message :: "nat list \<Rightarrow> string" where
  "invalid_input_message s = expected_text @ received_text @ tuple_repr s"

section \<open>The wrapped model and the adapter\<close>

text \<open>\<^verbatim>\<open>PyTorchModel\<close> is defined outside this module. The adapter uses two of its
  members, which are taken as they are: the attribute \<^verbatim>\<open>model\<close> (the underlying torch
  module) and the method \<^verbatim>\<open>evaluate\<close>, from a mapping of names to tensors to such a
  mapping, or an error.\<close>

type_synonym 'a dictionary = "string \<rightharpoonup> 'a tensor"

record ('a, 'nn, 'e) PyTorchModel =
  model :: 'nn
  evaluate :: "'a dictionary \<Rightarrow> 'e + 'a dictionary"

text \<open>The state of a \<^verbatim>\<open>LUMEModule\<close>: its three attributes and the table of
  registered submodules of \<^verbatim>\<open>torch.nn.Module\<close>.\<close>

record ('a, 'nn, 'e) LUMEModule =
  self_model :: "('a, 'nn, 'e) PyTorchModel"
  self_feature_order :: "string list"
  self_output_order :: "string list"
  self_modules :: "string \<rightharpoonup> 'nn"

text \<open>A method takes the object and returns its result, or the error it raises,
  together with the object as the call leaves it.\<close>

type_synonym ('r, 'a, 'nn, 'e) outcome = "('e error + 'r) \<times> ('a, 'nn, 'e) LUMEModule"

definition and_then ::
  "('e + 'r) \<times> 's \<Rightarrow> ('r \<Rightarrow> 's \<Rightarrow> ('e + 'q) \<times> 's) \<Rightarrow> ('e + 'q) \<times> 's" where
  "and_then r f = (case r of (Inl e, s) \<Rightarrow> (Inl e, s) | (Inr v, s) \<Rightarrow> f v s)"

definition feature_order :: "('a, 'nn, 'e) LUMEModule \<Rightarrow> string list" where
  "feature_order self = self_feature_order self"

definition output_order :: "('a, 'nn, 'e) LUMEModule \<Rightarrow> string list" where
  "output_order self = self_output_order self"

definition evaluate_model ::
  "('a, 'nn, 'e) LUMEModule \<Rightarrow> 'a dictionary \<Rightarrow> ('a dictionary, 'a, 'nn, 'e) outcome" where
  "evaluate_model self x =
     (case evaluate (self_model self) x of
        Inl e \<Rightarrow> (Inl (ModelError e), self)
      | Inr y \<Rightarrow> (Inr y, self))"

definition manipulate_outcome ::
  "('a, 'nn, 'e) LUMEModule \<Rightarrow> 'a dictionary \<Rightarrow> ('a dictionary, 'a, 'nn, 'e) outcome" where
  "manipulate_outcome self y_model = (Inr y_model, self)"

definition validate_input ::
  "('a, 'nn, 'e) LUMEModule \<Rightarrow> 'a tensor \<Rightarrow> ('a tensor, 'a, 'nn, 'e) outcome" where
  "validate_input self x =
     (if dim x \<le> 1 then (Inl (ValueError (invalid_input_message (shape x))), self)
      else (Inr x, self))"

text \<open>The loop of \<^verbatim>\<open>_tensor_to_dictionary\<close> over \<^verbatim>\<open>enumerate(self._feature_order)\<close>;
  an assignment to a name already present replaces its tensor.\<close>

fun tensor_to_dictionary_loop ::
  "'a tensor \<Rightarrow> (nat \<times> string) list \<Rightarrow> 'a dictionary \<Rightarrow> 'e error + 'a dictionary" where
  "tensor_to_dictionary_loop x [] input_dict = Inr input_dict"
| "tensor_to_dictionary_loop x ((idx, feature) # rest) input_dict =
     (case select_last x idx of
        Inl e \<Rightarrow> Inl e
      | Inr s \<Rightarrow> tensor_to_dictionary_loop x rest (input_dict(feature \<mapsto> unsqueeze_last s)))"

definition tensor_to_dictionary ::
  "('a, 'nn, 'e) LUMEModule \<Rightarrow> 'a tensor \<Rightarrow> ('a dictionary, 'a, 'nn, 'e) outcome" where
  "tensor_to_dictionary self x =
     (tensor_to_dictionary_loop x (enumerate 0 (self_feature_order self)) Map.empty, self)"

text \<open>The list comprehension of \<^verbatim>\<open>_dictionary_to_tensor\<close>: the first name missing
  from the mapping raises KeyError.\<close>

fun unsqueezed_outcomes :: "'a dictionary \<Rightarrow> string list \<Rightarrow> 'e error + 'a tensor list" where
  "unsqueezed_outcomes y_model [] = Inr []"
| "unsqueezed_outcomes y_model (outcome # rest) =
     (case y_model outcome of
        None \<Rightarrow> Inl (KeyError outcome)
      | Some t \<Rightarrow>
          (case unsqueezed_outcomes y_model rest of
             Inl e \<Rightarrow> Inl e
           | Inr ts \<Rightarrow> Inr (unsqueeze_last t # ts)))"

definition dictionary_to_tensor ::
  "('a, 'nn, 'e) LUMEModule \<Rightarrow> 'a dictionary \<Rightarrow> ('a tensor, 'a, 'nn, 'e) outcome" where
  "dictionary_to_tensor self y_model =
     (case unsqueezed_outcomes y_model (self_output_order self) of
        Inl e \<Rightarrow> (Inl e, self)
      | Inr ts \<Rightarrow>
          (case stack_last ts of
             Inl e \<Rightarrow> (Inl e, self)
           | Inr output_tensor \<Rightarrow> (Inr (squeeze output_tensor), self)))"

definition forward ::
  "('a, 'nn, 'e) LUMEModule \<Rightarrow> 'a tensor \<Rightarrow> ('a tensor, 'a, 'nn, 'e) outcome" where
  "forward self x =
     and_then (validate_input self x) (\<lambda>x self.
     and_then (tensor_to_dictionary self x) (\<lambda>model_input self.
     and_then (evaluate_model self model_input) (\<lambda>y_model self.
     and_then (manipulate_outcome self y_model) (\<lambda>y_model self.
     and_then (dictionary_to_tensor self y_model) (\<lambda>y self.
       (Inr (squeeze y), self))))))"


section \<open>Construction\<close>

text \<open>The names \<^verbatim>\<open>hasattr\<close> finds on an instance while \<^verbatim>\<open>__init__\<close> runs: the
  attributes assigned so far and the members the class defines. \<^verbatim>\<open>torch.nn.Module\<close>
  itself has no member called \<^verbatim>\<open>base_model\<close>.\<close>

definition class_attributes :: "string list" where
  "class_attributes =
     [''_model'', ''_feature_order'', ''_output_order'', ''feature_order'', ''output_order'',
      ''evaluate_model'', ''manipulate_outcome'', ''forward'', ''_tensor_to_dictionary'',
      ''_dictionary_to_tensor'', ''_validate_input'']"

text \<open>\<^verbatim>\<open>torch.nn.Module.register_module(name, module)\<close>: KeyError when the name is an
  attribute already and not a registered module, when it contains a dot, and when it
  is empty; otherwise the module is entered in the table.\<close>

definition register_module ::
  "('a, 'nn, 'e) LUMEModule \<Rightarrow> string \<Rightarrow> 'nn \<Rightarrow> (unit, 'a, 'nn, 'e) outcome" where
  "register_module self name module =
     (if name \<in> set class_attributes \<and> self_modules self name = None
        then (Inl (KeyError name), self)
      else if CHR ''.'' \<in> set name then (Inl (KeyError name), self)
      else if name = [] then (Inl (KeyError name), self)
      else (Inr (), self\<lparr>self_modules := (self_modules self)(name \<mapsto> module)\<rparr>))"

text \<open>\<^verbatim>\<open>LUMEModule(model, feature_order, output_order)\<close>. An argument that the caller
  leaves out is \<open>None\<close> here and takes its default, the empty list.\<close>

definition default_order :: "string list" where
  "default_order = []"

definition init ::
  "('a, 'nn, 'e) PyTorchModel \<Rightarrow> string list option \<Rightarrow> string list option
     \<Rightarrow> 'e error + ('a, 'nn, 'e) LUMEModule" where
  "init model_arg feature_order_arg output_order_arg =
     (let self = \<lparr>self_model = model_arg,
                   self_feature_order = (case feature_order_arg of None \<Rightarrow> default_order | Some l \<Rightarrow> l),
                   self_output_order = (case output_order_arg of None \<Rightarrow> default_order | Some l \<Rightarrow> l),
                   self_modules = Map.empty\<rparr>
      in case register_module self ''base_model'' (model (self_model self)) of
           (Inl e, _) \<Rightarrow> Inl e
         | (Inr _, self') \<Rightarrow> Inr self')"

section \<open>The slice of a column\<close>

text \<open>What the split step stores for column \<open>i\<close>: \<^verbatim>\<open>x[..., i].unsqueeze(-1)\<close> where
  the index is in range.\<close>

definition last_axis_slice :: "'a tensor \<Rightarrow> nat \<Rightarrow> 'a tensor" where
  "last_axis_slice x i =
     \<lparr>shape = butlast (shape x) @ [1],
      data = map (\<lambda>j. data x ! (j * last (shape x) + i)) [0..<prod_list (butlast (shape x))]\<rparr>"

section \<open>The reassembly step in the words of the specification\<close>

text \<open>Stack the tensors named in \<open>output_order\<close>, in that order, along a new trailing
  axis, then collapse all singleton dimensions.\<close>

definition stack_then_collapse :: "string list \<Rightarrow> 'a dictionary \<Rightarrow> 'e error + 'a tensor" where
  "stack_then_collapse names y_model =
     (case stack_last (map (\<lambda>name. the (y_model name)) names) of
        Inl e \<Rightarrow> Inl e
      | Inr t \<Rightarrow> Inr (squeeze t))"

section \<open>Example models and adapters\<close>

definition identity_model :: "(int, unit, unit) PyTorchModel" where
  "identity_model = \<lparr>model = (), evaluate = Inr\<rparr>"

definition failing_model :: "(int, unit, unit) PyTorchModel" where
  "failing_model = \<lparr>model = (), evaluate = (\<lambda>x. Inl ())\<rparr>"

definition adapter :: "(int, unit, unit) PyTorchModel \<Rightarrow> string list \<Rightarrow> string list
    \<Rightarrow> (int, unit, unit) LUMEModule" where
  "adapter m fo oo = \<lparr>self_model = m, self_feature_order = fo, self_output_order = oo,
                      self_modules = [''base_model'' \<mapsto> model m]\<rparr>"


section \<open>Steps that cannot fail with the rank check's error\<close>

lemma and_then_Inl [simp]: "and_then (Inl e, s) f = (Inl e, s)"
  by (simp add: and_then_def)

lemma and_then_Inr [simp]: "and_then (Inr v, s) f = f v s"
  by (simp add: and_then_def)






section \<open>What a call leaves behind\<close>

lemma snd_validate_input: "snd (validate_input self x) = self"
  by (simp add: validate_input_def)

lemma snd_tensor_to_dictionary: "snd (tensor_to_dictionary self x) = self"
  by (simp add: tensor_to_dictionary_def)

lemma snd_evaluate_model: "snd (evaluate_model self d) = self"
  by (simp add: evaluate_model_def split: sum.splits)

lemma snd_manipulate_outcome: "snd (manipulate_outcome self y) = self"
  by (simp add: manipulate_outcome_def)

lemma snd_dictionary_to_tensor: "snd (dictionary_to_tensor self y) = self"
  by (simp add: dictionary_to_tensor_def split: sum.splits)

lemma snd_and_then:
  "snd r = s \<Longrightarrow> (\<And>v. snd (f v s) = s) \<Longrightarrow> snd (and_then r f) = s"
  by (cases r) (auto simp: and_then_def split: sum.splits)

text \<open>The steps of \<open>forward\<close>, one after the other, with the object dropped.\<close>

lemma forward_unfold:
  "forward self x =
     (if dim x \<le> 1 then (Inl (ValueError (invalid_input_message (shape x))), self)
      else case fst (tensor_to_dictionary self x) of
             Inl e \<Rightarrow> (Inl e, self)
           | Inr model_input \<Rightarrow>
               (case evaluate (self_model self) model_input of
                  Inl e \<Rightarrow> (Inl (ModelError e), self)
                | Inr y_model \<Rightarrow>
                    (case fst (dictionary_to_tensor self y_model) of
                       Inl e \<Rightarrow> (Inl e, self)
                     | Inr y \<Rightarrow> (Inr (squeeze y), self))))"
  by (simp add: forward_def validate_input_def tensor_to_dictionary_def evaluate_model_def
      manipulate_outcome_def dictionary_to_tensor_def split: sum.splits)

section \<open>The rank check, the adapter after a call, and the final squeeze\<close>



text \<open>
  C6. A call of \<open>forward\<close> leaves the adapter as it was: the model, the two orderings
  and the table of registered modules are the same after the call, whether the call
  returns a tensor or raises.
\<close>

theorem forward_leaves_adapter_unchanged: "snd (forward self x) = self"
  unfolding forward_def
  by (intro snd_and_then snd_validate_input snd_tensor_to_dictionary snd_evaluate_model
      snd_manipulate_outcome snd_dictionary_to_tensor) simp

theorem forward_leaves_adapter_unchanged_witness:
  "snd (forward (adapter identity_model [''a''] [''a'']) \<lparr>shape = [5], data = [1, 2, 3, 4, 5]\<rparr>)
     = adapter identity_model [''a''] [''a'']
   \<and> snd (forward (adapter identity_model [''a''] [''a'']) \<lparr>shape = [2, 1], data = [1, 2]\<rparr>)
     = adapter identity_model [''a''] [''a'']"
  using forward_leaves_adapter_unchanged [of "adapter identity_model [''a''] [''a'']"]
  by simp

text \<open>
  C9. Whenever \<open>forward\<close> returns a tensor, no dimension of that tensor has size 1: the
  final squeeze drops every singleton axis, batch and sample axes included, as on the
  input of shape \<open>[1, 1, 2]\<close> below, whose result has rank 1.
\<close>

theorem forward_result_has_no_singleton_dimension:
  "fst (forward self x) = Inr y \<Longrightarrow> 1 \<notin> set (shape y)"
  by (auto simp: forward_unfold squeeze_def split: if_splits sum.splits)

theorem forward_result_has_no_singleton_dimension_witness:
  "fst (forward (adapter identity_model [''a'', ''b''] [''a'', ''b''])
         \<lparr>shape = [1, 1, 2], data = [3, 4]\<rparr>) = Inr \<lparr>shape = [2], data = [3, 4]\<rparr>
   \<and> 1 \<notin> set [2::nat]"
proof -
  have h: "fst (forward (adapter identity_model [''a'', ''b''] [''a'', ''b''])
         \<lparr>shape = [1, 1, 2], data = [3, 4]\<rparr>) = Inr \<lparr>shape = [2], data = [3, 4]\<rparr>"
    by code_simp
  from forward_result_has_no_singleton_dimension [OF h] h show ?thesis by simp
qed

section \<open>Reassembling the outputs\<close>

lemma outcomes_present:
  "\<forall>name\<in>set names. y name \<noteq> None \<Longrightarrow>
   unsqueezed_outcomes y names = Inr (map (\<lambda>name. unsqueeze_last (the (y name))) names)"
  by (induction names) auto

lemma same_shapes_unsqueezed: "same_shapes (map unsqueeze_last ts) = same_shapes ts"
  by (cases ts) (auto simp: same_shapes_def unsqueeze_last_def list_all_iff)

lemma squeeze_stack_unsqueezed:
  "(case stack_last (map unsqueeze_last ts) of Inl e \<Rightarrow> Inl e | Inr t \<Rightarrow> Inr (squeeze t))
   = (case stack_last ts of Inl (e :: 'e error) \<Rightarrow> Inl e | Inr t \<Rightarrow> Inr (squeeze t))"
proof (cases "ts = []")
  case True
  then show ?thesis by (simp add: stack_last_def)
next
  case False
  then have hd: "shape (hd (map unsqueeze_last ts)) = shape (hd ts) @ [1]"
    by (cases ts) (simp_all add: unsqueeze_last_def)
  have dat: "\<And>j. map ((\<lambda>t. data t ! j) \<circ> unsqueeze_last) ts = map (\<lambda>t. data t ! j) ts"
    by (simp add: unsqueeze_last_def)
  from False show ?thesis
    by (simp add: stack_last_def same_shapes_unsqueezed hd dat squeeze_def)
qed

lemma dictionary_to_tensor_eq:
  assumes "\<forall>name\<in>set (output_order self). y_model name \<noteq> None"
  shows "fst (dictionary_to_tensor self y_model) = stack_then_collapse (output_order self) y_model"
proof -
  define ts where "ts = map (\<lambda>name. the (y_model name)) (self_output_order self)"
  have "map (\<lambda>name. unsqueeze_last (the (y_model name))) (self_output_order self)
          = map unsqueeze_last ts"
    by (simp add: ts_def)
  with outcomes_present [of "self_output_order self" y_model] assms
  have out: "unsqueezed_outcomes y_model (self_output_order self) = Inr (map unsqueeze_last ts)"
    by (simp add: output_order_def)
  have "fst (dictionary_to_tensor self y_model)
          = (case stack_last (map unsqueeze_last ts) of Inl e \<Rightarrow> Inl e | Inr t \<Rightarrow> Inr (squeeze t))"
    by (simp add: dictionary_to_tensor_def out split: sum.splits)
  also have "\<dots> = (case stack_last ts of Inl e \<Rightarrow> Inl e | Inr t \<Rightarrow> Inr (squeeze t))"
    by (rule squeeze_stack_unsqueezed)
  also have "\<dots> = stack_then_collapse (output_order self) y_model"
    by (simp add: stack_then_collapse_def ts_def output_order_def)
  finally show ?thesis .
qed

lemma stack_last_common_shape:
  assumes "ts \<noteq> []" "\<forall>t\<in>set ts. shape t = s"
  shows "stack_last ts = Inr \<lparr>shape = s @ [length ts],
            data = concat (map (\<lambda>j. map (\<lambda>t. data t ! j) ts) [0..<prod_list s])\<rparr>"
proof -
  from assms have "shape (hd ts) = s" by (cases ts) auto
  with assms show ?thesis by (simp add: stack_last_def same_shapes_def list_all_iff)
qed



section \<open>Splitting the input\<close>

lemma loop_in_range:
  fixes d0 :: "'a dictionary"
  assumes "shape x \<noteq> []"
  shows "n + length names \<le> last (shape x) \<Longrightarrow>
     \<exists>d. (tensor_to_dictionary_loop x (enumerate n names) d0 :: 'e error + 'a dictionary) = Inr d
       \<and> (\<forall>name. name \<notin> set names \<longrightarrow> d name = d0 name)
       \<and> (\<forall>name\<in>set names. d name \<noteq> None)
       \<and> (\<forall>i<length names. names ! i \<notin> set (drop (Suc i) names) \<longrightarrow>
              d (names ! i) = Some (last_axis_slice x (n + i)))"
proof (induction names arbitrary: n d0)
  case Nil
  show ?case by simp
next
  case (Cons name rest)
  let ?d1 = "d0(name \<mapsto> last_axis_slice x n)"
  from Cons.prems assms have sel: "(select_last x n :: 'e error + 'a tensor) =
      Inr \<lparr>shape = butlast (shape x),
            data = map (\<lambda>j. data x ! (j * last (shape x) + n)) [0..<prod_list (butlast (shape x))]\<rparr>"
    by (simp add: select_last_def)
  have step: "(tensor_to_dictionary_loop x (enumerate n (name # rest)) d0 :: 'e error + 'a dictionary)
      = tensor_to_dictionary_loop x (enumerate (Suc n) rest) ?d1"
    by (simp add: sel unsqueeze_last_def last_axis_slice_def)
  from Cons.prems have "Suc n + length rest \<le> last (shape x)" by simp
  from Cons.IH [OF this, of ?d1] obtain d where
    d: "(tensor_to_dictionary_loop x (enumerate (Suc n) rest) ?d1 :: 'e error + 'a dictionary) = Inr d"
    and out: "\<forall>nm. nm \<notin> set rest \<longrightarrow> d nm = ?d1 nm"
    and pres: "\<forall>nm\<in>set rest. d nm \<noteq> None"
    and at: "\<forall>i<length rest. rest ! i \<notin> set (drop (Suc i) rest) \<longrightarrow>
              d (rest ! i) = Some (last_axis_slice x (Suc n + i))"
    by blast
  have a: "\<forall>nm. nm \<notin> set (name # rest) \<longrightarrow> d nm = d0 nm"
    using out by simp
  have b: "\<forall>nm\<in>set (name # rest). d nm \<noteq> None"
    using out pres by (cases "name \<in> set rest") auto
  have c: "d ((name # rest) ! i) = Some (last_axis_slice x (n + i))"
    if "i < length (name # rest)" "(name # rest) ! i \<notin> set (drop (Suc i) (name # rest))" for i
  proof (cases i)
    case 0
    with that out show ?thesis by simp
  next
    case (Suc k)
    with that at show ?thesis by simp
  qed
  have c': "\<forall>i<length (name # rest). (name # rest) ! i \<notin> set (drop (Suc i) (name # rest)) \<longrightarrow>
              d ((name # rest) ! i) = Some (last_axis_slice x (n + i))"
    using c by blast
  have "(tensor_to_dictionary_loop x (enumerate n (name # rest)) d0 :: 'e error + 'a dictionary) = Inr d"
    using step d by simp
  with a b c' show ?case by (intro exI [of _ d] conjI)
qed

lemma valid_index_length: "valid_index s js \<Longrightarrow> length js = length s"
  by (simp add: valid_index_def list_all2_lengthD)

lemma valid_index_snoc:
  "valid_index (s @ [d]) (js @ [j]) \<longleftrightarrow> valid_index s js \<and> j < d"
proof (cases "length js = length s")
  case True
  then show ?thesis by (simp add: valid_index_def list_all2_append)
next
  case False
  then have "\<not> list_all2 (\<lambda>j d. j < d) (js @ [j]) (s @ [d])" "\<not> list_all2 (\<lambda>j d. j < d) js s"
    by (auto dest: list_all2_lengthD)
  then show ?thesis by (simp add: valid_index_def)
qed

lemma flat_index_snoc:
  "length js = length s \<Longrightarrow> flat_index (s @ [d]) (js @ [j]) = flat_index s js * d + j"
  by (simp add: flat_index_def)

lemma flat_index_bound: "valid_index s js \<Longrightarrow> flat_index s js < prod_list s"
proof (induction s arbitrary: js rule: rev_induct)
  case Nil
  then show ?case by (simp add: valid_index_def flat_index_def)
next
  case (snoc d s)
  from snoc.prems obtain js' j where js: "js = js' @ [j]"
    by (cases js rule: rev_cases) (auto simp: valid_index_def)
  with snoc.prems have v: "valid_index s js'" and j: "j < d"
    by (simp_all add: valid_index_snoc)
  from snoc.IH [OF v] have "Suc (flat_index s js') \<le> prod_list s" by simp
  then have "Suc (flat_index s js') * d \<le> prod_list s * d"
    by (rule mult_le_mono1)
  with j have "flat_index s js' * d + j < prod_list s * d" by simp
  with js v show ?case
    by (simp add: flat_index_snoc valid_index_length)
qed

lemma item_at_last_axis_slice:
  assumes "shape x \<noteq> []" "i < last (shape x)" "valid_index (butlast (shape x)) js"
  shows "item_at (last_axis_slice x i) (js @ [0]) = item_at x (js @ [i])"
proof -
  obtain bs m where s: "shape x = bs @ [m]"
    using assms(1) by (cases "shape x" rule: rev_cases) auto
  with assms have v: "valid_index bs js" and i: "i < m" by simp_all
  have len: "length js = length bs" using v by (rule valid_index_length)
  have b: "flat_index bs js < prod_list bs" using v by (rule flat_index_bound)
  have "item_at (last_axis_slice x i) (js @ [0]) = Some (data x ! (flat_index bs js * m + i))"
    using v b len by (simp add: item_at_def last_axis_slice_def s valid_index_snoc flat_index_snoc)
  moreover have "item_at x (js @ [i]) = Some (data x ! (flat_index bs js * m + i))"
    using v i len by (simp add: item_at_def s valid_index_snoc flat_index_snoc)
  ultimately show ?thesis by simp
qed

text \<open>
  C4, as amended. For an input of rank at least 2 whose last dimension is at least
  \<open>len(feature_order)\<close>, the split step returns a mapping, and for every position \<open>i\<close>
  of \<open>feature_order\<close> whose name does not occur again at a later position (every
  position, when the names are distinct) the mapping holds under that name the slice of
  the input at index \<open>i\<close> of the last axis: its shape is the leading dimensions followed
  by a singleton, and its element at \<open>js @ [0]\<close> is the input's element at \<open>js @ [i]\<close>.
  A name that occurs again later holds the slice of its last occurrence instead.
\<close>

theorem tensor_to_dictionary_assigns_slices:
  fixes self :: "('a, 'nn, 'e) LUMEModule"
  assumes "2 \<le> dim x"
    and "length (feature_order self) \<le> last (shape x)"
    and "i < length (feature_order self)"
    and "feature_order self ! i \<notin> set (drop (Suc i) (feature_order self))"
  shows "\<exists>d t. fst (tensor_to_dictionary self x) = Inr d
           \<and> d (feature_order self ! i) = Some t
           \<and> shape t = butlast (shape x) @ [1]
           \<and> (\<forall>js. valid_index (butlast (shape x)) js \<longrightarrow>
                  item_at t (js @ [0]) = item_at x (js @ [i]))"
proof -
  from assms(1) have ne: "shape x \<noteq> []" by (auto simp: dim_def)
  from assms(2) have "0 + length (self_feature_order self) \<le> last (shape x)"
    by (simp add: feature_order_def)
  from loop_in_range [OF ne this, of Map.empty, where ?'e = 'e] obtain d where
    d: "(tensor_to_dictionary_loop x (enumerate 0 (self_feature_order self)) Map.empty
           :: 'e error + 'a dictionary) = Inr d"
    and at: "\<forall>i<length (self_feature_order self).
        self_feature_order self ! i \<notin> set (drop (Suc i) (self_feature_order self)) \<longrightarrow>
        d (self_feature_order self ! i) = Some (last_axis_slice x (0 + i))"
    by blast
  from at assms(3,4) have v: "d (feature_order self ! i) = Some (last_axis_slice x i)"
    by (simp add: feature_order_def)
  from assms(2,3) have "i < last (shape x)" by simp
  then have "\<forall>js. valid_index (butlast (shape x)) js \<longrightarrow>
      item_at (last_axis_slice x i) (js @ [0]) = item_at x (js @ [i])"
    using ne by (simp add: item_at_last_axis_slice)
  moreover have "shape (last_axis_slice x i) = butlast (shape x) @ [1]"
    by (simp add: last_axis_slice_def)
  moreover have "fst (tensor_to_dictionary self x) = Inr d"
    by (simp add: tensor_to_dictionary_def d)
  ultimately show ?thesis using v by blast
qed

theorem tensor_to_dictionary_assigns_slices_witness:
  "2 \<le> dim \<lparr>shape = [2, 1, 2], data = [1, 2, 3, 4 :: int]\<rparr>
   \<and> (1 :: nat) < length (feature_order (adapter identity_model [''a'', ''b''] []))
   \<and> (\<exists>d t. fst (tensor_to_dictionary (adapter identity_model [''a'', ''b''] [])
                    \<lparr>shape = [2, 1, 2], data = [1, 2, 3, 4]\<rparr>) = Inr d
          \<and> d ''b'' = Some t \<and> shape t = [2, 1, 1]
          \<and> item_at t [1, 0, 0] = item_at \<lparr>shape = [2, 1, 2], data = [1, 2, 3, 4]\<rparr> [1, 0, 1])"
proof -
  let ?a = "adapter identity_model [''a'', ''b''] []"
  let ?x = "\<lparr>shape = [2, 1, 2], data = [1, 2, 3, 4 :: int]\<rparr>"
  have fo: "feature_order ?a = [''a'', ''b'']"
    by (simp add: feature_order_def adapter_def)
  have h1: "2 \<le> dim ?x" by (simp add: dim_def)
  have h2: "length (feature_order ?a) \<le> last (shape ?x)" by (simp add: fo)
  have h3: "1 < length (feature_order ?a)" by (simp add: fo)
  have h4: "feature_order ?a ! 1 \<notin> set (drop (Suc 1) (feature_order ?a))" by (simp add: fo)
  have v: "valid_index (butlast (shape ?x)) [1, 0]" by (simp add: valid_index_def)
  from tensor_to_dictionary_assigns_slices [OF h1 h2 h3 h4] obtain d t where
    "fst (tensor_to_dictionary ?a ?x) = Inr d" "d (feature_order ?a ! 1) = Some t"
    "shape t = butlast (shape ?x) @ [1]"
    "\<forall>js. valid_index (butlast (shape ?x)) js \<longrightarrow> item_at t (js @ [0]) = item_at ?x (js @ [1])"
    by blast
  with v have "fst (tensor_to_dictionary ?a ?x) = Inr d \<and> d ''b'' = Some t \<and> shape t = [2, 1, 1]
      \<and> item_at t [1, 0, 0] = item_at ?x [1, 0, 1]"
    by (auto simp: fo)
  with h1 h3 show ?thesis by blast
qed

text \<open>
  C4 as stated fails when a name is repeated: with \<open>feature_order = ["a", "a"]\<close> the
  name at position 0 holds the slice at index 1 (element 2), not the slice at index 0
  (element 1), since the later assignment replaces the earlier.
\<close>

theorem tensor_to_dictionary_duplicate_name_counterexample:
  "fst (tensor_to_dictionary (adapter identity_model [''a'', ''a''] [])
          \<lparr>shape = [1, 1, 2], data = [1, 2]\<rparr>)
     = Inr [''a'' \<mapsto> \<lparr>shape = [1, 1, 1], data = [2]\<rparr>]
   \<and> item_at \<lparr>shape = [1, 1, 1], data = [2 :: int]\<rparr> [0, 0, 0] = Some 2
   \<and> item_at \<lparr>shape = [1, 1, 2], data = [1, 2 :: int]\<rparr> [0, 0, 0] = Some 1"
  by (simp add: tensor_to_dictionary_def adapter_def enumerate_eq_zip select_last_def
      unsqueeze_last_def item_at_def valid_index_def flat_index_def)

lemma flat_index_onto: "j < prod_list s \<Longrightarrow> \<exists>js. valid_index s js \<and> flat_index s js = j"
proof (induction s arbitrary: j rule: rev_induct)
  case Nil
  then show ?case by (simp add: valid_index_def flat_index_def)
next
  case (snoc d s)
  from snoc.prems have lt: "j < prod_list s * d" by simp
  then have d: "0 < d" by (cases d) simp_all
  from lt have "j div d < prod_list s"
    by (simp add: less_mult_imp_div_less)
  from snoc.IH [OF this] obtain js where js: "valid_index s js" "flat_index s js = j div d"
    by blast
  from d have "j mod d < d" by simp
  with js have "valid_index (s @ [d]) (js @ [j mod d])"
    by (simp add: valid_index_snoc)
  moreover from js have "flat_index (s @ [d]) (js @ [j mod d]) = j"
    by (simp add: flat_index_snoc valid_index_length)
  ultimately show ?case by blast
qed

lemma loop_cong:
  "\<forall>p\<in>set ps. (select_last x (fst p) :: 'e error + 'a tensor) = select_last x' (fst p) \<Longrightarrow>
   (tensor_to_dictionary_loop x ps d :: 'e error + 'a dictionary) = tensor_to_dictionary_loop x' ps d"
proof (induction ps arbitrary: d)
  case Nil
  show ?case by simp
next
  case (Cons p ps)
  obtain idx feature where p: "p = (idx, feature)" by (cases p)
  from Cons.prems p have "(select_last x idx :: 'e error + 'a tensor) = select_last x' idx"
    by simp
  moreover from Cons.prems have "\<And>d. (tensor_to_dictionary_loop x ps d :: 'e error + 'a dictionary)
      = tensor_to_dictionary_loop x' ps d"
    by (intro Cons.IH) simp
  ultimately show ?case by (simp add: p split: sum.splits)
qed

lemma select_last_agree:
  fixes x x' :: "'a tensor"
  assumes sh: "shape x' = shape x" and ne: "shape x \<noteq> []" and i: "i < k"
    and agree: "\<forall>js i. valid_index (butlast (shape x)) js \<and> i < k \<longrightarrow>
                  item_at x' (js @ [i]) = item_at x (js @ [i])"
  shows "(select_last x' i :: 'e error + 'a tensor) = select_last x i"
proof (cases "i < last (shape x)")
  case False
  with sh ne show ?thesis by (simp add: select_last_def)
next
  case True
  obtain bs m where s: "shape x = bs @ [m]"
    using ne by (cases "shape x" rule: rev_cases) auto
  have "data x' ! (j * m + i) = data x ! (j * m + i)" if "j < prod_list bs" for j
  proof -
    from flat_index_onto [OF that] obtain js where js: "valid_index bs js" "flat_index bs js = j"
      by blast
    with agree i s have "item_at x' (js @ [i]) = item_at x (js @ [i])" by simp
    with js True s sh show ?thesis
      by (simp add: item_at_def valid_index_snoc flat_index_snoc valid_index_length)
  qed
  with True sh s show ?thesis by (simp add: select_last_def)
qed

lemma last_occurrence:
  "name \<in> set names \<Longrightarrow>
   \<exists>i<length names. names ! i = name \<and> names ! i \<notin> set (drop (Suc i) names)"
proof (induction names)
  case Nil
  then show ?case by simp
next
  case (Cons a rest)
  show ?case
  proof (cases "name \<in> set rest")
    case True
    from Cons.IH [OF this] obtain i where
      "i < length rest" "rest ! i = name" "rest ! i \<notin> set (drop (Suc i) rest)"
      by blast
    then have "Suc i < length (a # rest) \<and> (a # rest) ! Suc i = name
        \<and> (a # rest) ! Suc i \<notin> set (drop (Suc (Suc i)) (a # rest))"
      by simp
    then show ?thesis by blast
  next
    case False
    with Cons.prems have "a = name" by simp
    with False have "0 < length (a # rest) \<and> (a # rest) ! 0 = name
        \<and> (a # rest) ! 0 \<notin> set (drop (Suc 0) (a # rest))"
      by simp
    then show ?thesis by blast
  qed
qed

lemma well_formed_last_axis_slice: "well_formed (last_axis_slice x i)"
  by (simp add: well_formed_def last_axis_slice_def)

text \<open>
  C8. For an input of rank at least 2 whose last dimension is strictly greater than
  \<open>len(feature_order)\<close>, the split step raises nothing and returns a mapping with
  exactly the names of \<open>feature_order\<close>. Every name holds the slice of the input at an
  index \<open>i\<close> below \<open>len(feature_order)\<close> at which the name stands in \<open>feature_order\<close>: a
  tensor of the leading dimensions followed by a singleton, with as many elements as
  its shape says, whose element at \<open>js @ [0]\<close> is the input's element at \<open>js @ [i]\<close>.
  No column from \<open>len(feature_order)\<close> on is used: the mapping is the same for any other
  input of the same shape that agrees on the columns below \<open>len(feature_order)\<close>.
\<close>

theorem tensor_to_dictionary_ignores_surplus_columns:
  fixes self :: "('a, 'nn, 'e) LUMEModule"
  assumes "2 \<le> dim x"
    and "length (feature_order self) < last (shape x)"
    and "shape x' = shape x"
    and "\<forall>js i. valid_index (butlast (shape x)) js \<and> i < length (feature_order self) \<longrightarrow>
                  item_at x' (js @ [i]) = item_at x (js @ [i])"
  shows "\<exists>d. fst (tensor_to_dictionary self x) = Inr d
           \<and> fst (tensor_to_dictionary self x') = Inr d
           \<and> dom d = set (feature_order self)
           \<and> (\<forall>name\<in>set (feature_order self).
                 \<exists>i<length (feature_order self). \<exists>t.
                   feature_order self ! i = name
                   \<and> d name = Some t
                   \<and> shape t = butlast (shape x) @ [1]
                   \<and> well_formed t
                   \<and> (\<forall>js. valid_index (butlast (shape x)) js \<longrightarrow>
                          item_at t (js @ [0]) = item_at x (js @ [i])))"
proof -
  let ?names = "self_feature_order self"
  from assms(1) have ne: "shape x \<noteq> []" by (auto simp: dim_def)
  from assms(2) have "0 + length ?names \<le> last (shape x)"
    by (simp add: feature_order_def)
  from loop_in_range [OF ne this, of Map.empty, where ?'e = 'e] obtain d where
    d: "(tensor_to_dictionary_loop x (enumerate 0 ?names) Map.empty
           :: 'e error + 'a dictionary) = Inr d"
    and out: "\<forall>name. name \<notin> set ?names \<longrightarrow> d name = None"
    and pres: "\<forall>name\<in>set ?names. d name \<noteq> None"
    and at: "\<forall>i<length ?names. ?names ! i \<notin> set (drop (Suc i) ?names) \<longrightarrow>
               d (?names ! i) = Some (last_axis_slice x (0 + i))"
    by blast
  have slices: "\<exists>i<length ?names. \<exists>t. ?names ! i = name \<and> d name = Some t
        \<and> shape t = butlast (shape x) @ [1] \<and> well_formed t
        \<and> (\<forall>js. valid_index (butlast (shape x)) js \<longrightarrow>
               item_at t (js @ [0]) = item_at x (js @ [i]))"
    if "name \<in> set ?names" for name
  proof -
    from last_occurrence [OF that] obtain i where
      i: "i < length ?names" and nm: "?names ! i = name"
      and later: "?names ! i \<notin> set (drop (Suc i) ?names)"
      by blast
    from at i later nm have v: "d name = Some (last_axis_slice x i)" by auto
    from i assms(2) have "i < last (shape x)" by (simp add: feature_order_def)
    then have "\<forall>js. valid_index (butlast (shape x)) js \<longrightarrow>
        item_at (last_axis_slice x i) (js @ [0]) = item_at x (js @ [i])"
      using ne by (simp add: item_at_last_axis_slice)
    moreover have "shape (last_axis_slice x i) = butlast (shape x) @ [1]"
      by (simp add: last_axis_slice_def)
    ultimately show ?thesis
      using i nm v well_formed_last_axis_slice [of x i] by blast
  qed
  have "\<forall>p\<in>set (enumerate 0 ?names).
      (select_last x' (fst p) :: 'e error + 'a tensor) = select_last x (fst p)"
  proof
    fix p assume "p \<in> set (enumerate 0 ?names)"
    then have "fst p < length ?names" by (auto simp: in_set_enumerate_eq)
    then show "(select_last x' (fst p) :: 'e error + 'a tensor) = select_last x (fst p)"
      using assms(3,4) ne by (intro select_last_agree) (simp_all add: feature_order_def)
  qed
  then have "(tensor_to_dictionary_loop x' (enumerate 0 ?names) Map.empty
           :: 'e error + 'a dictionary) = tensor_to_dictionary_loop x (enumerate 0 ?names) Map.empty"
    by (rule loop_cong)
  with d have "fst (tensor_to_dictionary self x) = Inr d" "fst (tensor_to_dictionary self x') = Inr d"
    by (simp_all add: tensor_to_dictionary_def)
  moreover from out pres have "dom d = set (feature_order self)"
    by (auto simp: feature_order_def dom_def)
  moreover from slices have "\<forall>name\<in>set (feature_order self).
      \<exists>i<length (feature_order self). \<exists>t.
        feature_order self ! i = name \<and> d name = Some t
        \<and> shape t = butlast (shape x) @ [1] \<and> well_formed t
        \<and> (\<forall>js. valid_index (butlast (shape x)) js \<longrightarrow>
               item_at t (js @ [0]) = item_at x (js @ [i]))"
    by (simp add: feature_order_def)
  ultimately show ?thesis by blast
qed

theorem tensor_to_dictionary_ignores_surplus_columns_witness:
  "length (feature_order (adapter identity_model [''a''] []))
     < last (shape \<lparr>shape = [2, 1, 3], data = [1, 2, 3, 4, 5, 6 :: int]\<rparr>)
   \<and> (\<exists>d t. fst (tensor_to_dictionary (adapter identity_model [''a''] [])
                 \<lparr>shape = [2, 1, 3], data = [1, 2, 3, 4, 5, 6]\<rparr>) = Inr d
          \<and> fst (tensor_to_dictionary (adapter identity_model [''a''] [])
                 \<lparr>shape = [2, 1, 3], data = [1, 9, 9, 4, 8, 8]\<rparr>) = Inr d
          \<and> dom d = {''a''}
          \<and> d ''a'' = Some t \<and> shape t = [2, 1, 1] \<and> well_formed t
          \<and> item_at t [1, 0, 0] = Some 4)"
proof -
  let ?a = "adapter identity_model [''a''] []"
  let ?x = "\<lparr>shape = [2, 1, 3], data = [1, 2, 3, 4, 5, 6 :: int]\<rparr>"
  let ?x' = "\<lparr>shape = [2, 1, 3], data = [1, 9, 9, 4, 8, 8 :: int]\<rparr>"
  have fo: "feature_order ?a = [''a'']"
    by (simp add: feature_order_def adapter_def)
  have h1: "2 \<le> dim ?x" by (simp add: dim_def)
  have h2: "length (feature_order ?a) < last (shape ?x)" by (simp add: fo)
  have h3: "shape ?x' = shape ?x" by simp
  have h4: "\<forall>js i. valid_index (butlast (shape ?x)) js \<and> i < length (feature_order ?a) \<longrightarrow>
                  item_at ?x' (js @ [i]) = item_at ?x (js @ [i])"
  proof (intro allI impI)
    fix js :: "nat list" and i :: nat
    assume a: "valid_index (butlast (shape ?x)) js \<and> i < length (feature_order ?a)"
    then have i: "i = 0" by (simp add: fo)
    from a obtain p q where js: "js = [p, q]" and p: "p < 2" and q: "q = 0"
      by (auto simp: valid_index_def list_all2_Cons2)
    from p have "p = 0 \<or> p = 1" by auto
    then show "item_at ?x' (js @ [i]) = item_at ?x (js @ [i])"
      by (auto simp: i js q item_at_def valid_index_def flat_index_def)
  qed
  have v: "valid_index (butlast (shape ?x)) [1, 0]" by (simp add: valid_index_def)
  have e: "item_at ?x ([1, 0] @ [0]) = Some 4"
    by (simp add: item_at_def valid_index_def flat_index_def)
  from tensor_to_dictionary_ignores_surplus_columns [OF h1 h2 h3 h4] obtain d where
    d: "fst (tensor_to_dictionary ?a ?x) = Inr d" "fst (tensor_to_dictionary ?a ?x') = Inr d"
      "dom d = set (feature_order ?a)"
    and sl: "\<forall>name\<in>set (feature_order ?a). \<exists>i<length (feature_order ?a). \<exists>t.
        feature_order ?a ! i = name \<and> d name = Some t
        \<and> shape t = butlast (shape ?x) @ [1] \<and> well_formed t
        \<and> (\<forall>js. valid_index (butlast (shape ?x)) js \<longrightarrow>
               item_at t (js @ [0]) = item_at ?x (js @ [i]))"
    by blast
  from sl obtain t where t: "d ''a'' = Some t" "shape t = butlast (shape ?x) @ [1]" "well_formed t"
    "\<forall>js. valid_index (butlast (shape ?x)) js \<longrightarrow> item_at t (js @ [0]) = item_at ?x (js @ [0])"
    by (auto simp: fo)
  from t(4) v e have "item_at t [1, 0, 0] = Some 4" by auto
  with d t h2 show ?thesis by (auto simp: fo)
qed

section \<open>Construction succeeds\<close>

lemma register_base_model:
  "self_modules self = Map.empty \<Longrightarrow>
   register_module self ''base_model'' module
     = (Inr (), self\<lparr>self_modules := [''base_model'' \<mapsto> module]\<rparr>)"
  by (simp add: register_module_def class_attributes_def)

lemma init_eq:
  "init m fo_arg oo_arg =
     Inr \<lparr>self_model = m,
          self_feature_order = (case fo_arg of None \<Rightarrow> [] | Some l \<Rightarrow> l),
          self_output_order = (case oo_arg of None \<Rightarrow> [] | Some l \<Rightarrow> l),
          self_modules = [''base_model'' \<mapsto> model m]\<rparr>"
  by (simp add: init_def register_base_model default_order_def split: option.splits)

text \<open>
  C7. Construction succeeds for every model and every pair of name lists, given or left
  to their default: the registration of \<^verbatim>\<open>base_model\<close> passes the checks of
  \<^verbatim>\<open>register_module\<close>, and the new adapter holds the model and the two lists as
  they were passed (the empty list where one was left out), whatever they are; the
  lists are not compared with the model.
\<close>

theorem init_never_fails_and_stores_arguments:
  "\<exists>self. init m fo_arg oo_arg = Inr self
      \<and> self_model self = m
      \<and> feature_order self = (case fo_arg of None \<Rightarrow> [] | Some l \<Rightarrow> l)
      \<and> output_order self = (case oo_arg of None \<Rightarrow> [] | Some l \<Rightarrow> l)
      \<and> self_modules self = [''base_model'' \<mapsto> model m]"
  by (simp add: init_eq feature_order_def output_order_def)

theorem init_never_fails_and_stores_arguments_witness:
  "\<exists>self. init failing_model (Some [''x'', ''x'']) None = Inr self
      \<and> self_model self = failing_model
      \<and> feature_order self = [''x'', ''x'']
      \<and> output_order self = []
      \<and> self_modules self = [''base_model'' \<mapsto> ()]"
  using init_never_fails_and_stores_arguments [of failing_model "Some [''x'', ''x'']" None]
  by (simp add: failing_model_def)

section \<open>The default output order\<close>

lemma stack_last_Nil:
  "stack_last [] = Inl (RuntimeError ''stack expects a non-empty TensorList'')"
  by (simp add: stack_last_def)

lemma dictionary_to_tensor_no_outputs:
  "self_output_order self = [] \<Longrightarrow>
   fst (dictionary_to_tensor self y) = Inl (RuntimeError ''stack expects a non-empty TensorList'')"
  by (simp add: dictionary_to_tensor_def stack_last_Nil)

text \<open>
  C10, as amended. An adapter constructed with the default, empty \<open>output_order\<close> never
  returns a tensor from \<open>forward\<close> on an input of rank at least 2. Whenever the split
  step and the wrapped model succeed, the error raised is the one of the reassembly
  step, from stacking an empty list of tensors.
\<close>

theorem forward_with_default_output_order_never_returns:
  fixes self :: "('a, 'nn, 'e) LUMEModule"
  assumes "init m fo_arg None = Inr self" and "2 \<le> dim x"
  shows "(\<forall>y. fst (forward self x) \<noteq> Inr y)
       \<and> (\<forall>d y_model. fst (tensor_to_dictionary self x) = Inr d
              \<and> evaluate (self_model self) d = Inr y_model \<longrightarrow>
            fst (forward self x) = Inl (RuntimeError ''stack expects a non-empty TensorList''))"
proof -
  from assms(1) have "self_output_order self = []"
    by (auto simp: init_eq)
  then have r: "\<And>y. fst (dictionary_to_tensor self y)
      = Inl (RuntimeError ''stack expects a non-empty TensorList'')"
    by (rule dictionary_to_tensor_no_outputs)
  from assms(2) have "\<not> dim x \<le> 1" by simp
  then show ?thesis
    by (auto simp: forward_unfold r split: sum.splits)
qed

theorem forward_with_default_output_order_never_returns_witness:
  "init identity_model None None = Inr (adapter identity_model [] [])
   \<and> 2 \<le> dim \<lparr>shape = [2, 1], data = [7, 8 :: int]\<rparr>
   \<and> fst (forward (adapter identity_model [] []) \<lparr>shape = [2, 1], data = [7, 8]\<rparr>)
       = Inl (RuntimeError ''stack expects a non-empty TensorList'')"
proof -
  let ?x = "\<lparr>shape = [2, 1], data = [7, 8 :: int]\<rparr>"
  have h1: "init identity_model None None = Inr (adapter identity_model [] [])"
    by (simp add: init_eq adapter_def)
  have h2: "2 \<le> dim ?x" by (simp add: dim_def)
  have s: "fst (tensor_to_dictionary (adapter identity_model [] []) ?x) = Inr Map.empty"
    by (simp add: tensor_to_dictionary_def adapter_def)
  have e: "evaluate (self_model (adapter identity_model [] [])) Map.empty = Inr Map.empty"
    by (simp add: adapter_def identity_model_def)
  from forward_with_default_output_order_never_returns [OF h1 h2] s e h1 h2
  show ?thesis by blast
qed

text \<open>
  C10 as stated fails where an earlier step raises: with the default orderings and a
  wrapped model that raises, the error of \<open>forward\<close> is the model's, not the one of the
  reassembly step.
\<close>

theorem forward_default_orders_model_error_counterexample:
  "init failing_model None None = Inr (adapter failing_model [] [])
   \<and> dim \<lparr>shape = [2, 1], data = [7, 8 :: int]\<rparr> = 2
   \<and> fst (forward (adapter failing_model [] []) \<lparr>shape = [2, 1], data = [7, 8]\<rparr>)
       = Inl (ModelError ())"
  by (simp add: init_eq adapter_def dim_def forward_unfold tensor_to_dictionary_def
      failing_model_def)

section \<open>The shape of the result\<close>

lemma dictionary_to_tensor_common_shape:
  fixes self :: "('a, 'nn, 'e) LUMEModule"
  assumes ne: "self_output_order self \<noteq> []"
    and sh: "\<forall>name\<in>set (self_output_order self). \<exists>t. y_model name = Some t \<and> shape t = s"
  shows "fst (dictionary_to_tensor self y_model) =
           Inr (squeeze \<lparr>shape = s @ [length (self_output_order self)],
                  data = concat (map (\<lambda>j. map (\<lambda>name. data (the (y_model name)) ! j)
                                             (self_output_order self))
                                     [0..<prod_list s])\<rparr>)"
proof -
  let ?ts = "map (\<lambda>name. the (y_model name)) (self_output_order self)"
  from sh have "\<forall>name\<in>set (output_order self). y_model name \<noteq> None"
    by (auto simp: output_order_def)
  then have eq: "fst (dictionary_to_tensor self y_model)
      = stack_then_collapse (output_order self) y_model"
    by (rule dictionary_to_tensor_eq)
  from ne have "?ts \<noteq> []" by simp
  moreover from sh have "\<forall>t\<in>set ?ts. shape t = s" by auto
  ultimately have "(stack_last ?ts :: 'e error + 'a tensor) =
      Inr \<lparr>shape = s @ [length ?ts],
            data = concat (map (\<lambda>j. map (\<lambda>t. data t ! j) ?ts) [0..<prod_list s])\<rparr>"
    by (rule stack_last_common_shape)
  then have "(stack_then_collapse (output_order self) y_model :: 'e error + 'a tensor) =
      Inr (squeeze \<lparr>shape = s @ [length (self_output_order self)],
                  data = concat (map (\<lambda>j. map (\<lambda>name. data (the (y_model name)) ! j)
                                             (self_output_order self))
                                     [0..<prod_list s])\<rparr>)"
    by (simp add: stack_then_collapse_def output_order_def comp_def)
  with eq show ?thesis by simp
qed

text \<open>
  C1, as amended. For an input of shape \<open>[b, n, len(feature_order)]\<close> and at least one
  output name, when the wrapped model, called on the split mapping, returns for each
  name of \<open>output_order\<close> a tensor of shape \<open>[b, n, 1]\<close>, \<open>forward\<close> returns a tensor whose
  shape is \<open>[b, n, len(output_order)]\<close> with every singleton dimension collapsed. With
  one output name that is \<open>[b, n]\<close> with its singletons collapsed: \<open>[b, n]\<close> when both are
  at least 2, \<open>[n]\<close> when \<open>b = 1\<close> and \<open>n\<close> is at least 2.
\<close>

theorem forward_shape:
  fixes self :: "('a, 'nn, 'e) LUMEModule"
  assumes "shape x = [b, n, length (feature_order self)]"
    and "output_order self \<noteq> []"
    and "\<forall>d. fst (tensor_to_dictionary self x) = Inr d \<longrightarrow>
           (\<exists>y. evaluate (self_model self) d = Inr y
              \<and> (\<forall>name\<in>set (output_order self). \<exists>t. y name = Some t \<and> shape t = [b, n, 1]))"
  shows "\<exists>out. fst (forward self x) = Inr out
            \<and> shape out = filter (\<lambda>d. d \<noteq> 1) [b, n, length (output_order self)]
            \<and> (length (output_order self) = 1 \<and> 2 \<le> b \<and> 2 \<le> n \<longrightarrow> shape out = [b, n])
            \<and> (length (output_order self) = 1 \<and> b = 1 \<and> 2 \<le> n \<longrightarrow> shape out = [n])"
proof -
  from assms(1) have nonscalar: "shape x \<noteq> []"
    and "0 + length (self_feature_order self) \<le> last (shape x)"
    by (simp_all add: feature_order_def)
  from loop_in_range [OF this, of Map.empty, where ?'e = 'e] obtain d where
    "(tensor_to_dictionary_loop x (enumerate 0 (self_feature_order self)) Map.empty
        :: 'e error + 'a dictionary) = Inr d"
    by blast
  then have d: "fst (tensor_to_dictionary self x) = Inr d"
    by (simp add: tensor_to_dictionary_def)
  with assms(3) obtain y where
    y: "evaluate (self_model self) d = Inr y"
    and sh: "\<forall>name\<in>set (self_output_order self). \<exists>t. y name = Some t \<and> shape t = [b, n, 1]"
    by (auto simp: output_order_def)
  from assms(2) have ne: "self_output_order self \<noteq> []" by (simp add: output_order_def)
  from assms(1) have rank: "\<not> dim x \<le> 1" by (simp add: dim_def)
  define t :: "'a tensor" where
    "t = \<lparr>shape = [b, n, 1] @ [length (self_output_order self)],
          data = concat (map (\<lambda>j. map (\<lambda>name. data (the (y name)) ! j)
                                     (self_output_order self))
                             [0..<prod_list [b, n, 1]])\<rparr>"
  have "fst (dictionary_to_tensor self y) = Inr (squeeze t)"
    unfolding t_def by (rule dictionary_to_tensor_common_shape [OF ne sh])
  with rank d y have out: "fst (forward self x) = Inr (squeeze (squeeze t))"
    by (simp add: forward_unfold)
  have "shape (squeeze (squeeze t)) = filter (\<lambda>d. d \<noteq> 1) [b, n, length (output_order self)]"
    by (simp add: squeeze_def t_def output_order_def)
  with out show ?thesis by auto
qed

theorem forward_shape_witness:
  "shape \<lparr>shape = [1, 2, 1], data = [7, 8 :: int]\<rparr>
     = [1, 2, length (feature_order (adapter identity_model [''a''] [''a'']))]
   \<and> (\<exists>out. fst (forward (adapter identity_model [''a''] [''a''])
                   \<lparr>shape = [1, 2, 1], data = [7, 8]\<rparr>) = Inr out
          \<and> shape out = [2])"
proof -
  let ?a = "adapter identity_model [''a''] [''a'']"
  let ?x = "\<lparr>shape = [1, 2, 1], data = [7, 8 :: int]\<rparr>"
  have fo: "feature_order ?a = [''a'']" and oo: "output_order ?a = [''a'']"
    by (simp_all add: feature_order_def output_order_def adapter_def)
  have h1: "shape ?x = [1, 2, length (feature_order ?a)]" by (simp add: fo)
  have h2: "output_order ?a \<noteq> []" by (simp add: oo)
  have u: "[0..<2] = [0, 1 :: nat]" by code_simp
  have s: "fst (tensor_to_dictionary ?a ?x) = Inr [''a'' \<mapsto> \<lparr>shape = [1, 2, 1], data = [7, 8]\<rparr>]"
    by (simp add: tensor_to_dictionary_def adapter_def enumerate_eq_zip select_last_def
        unsqueeze_last_def u)
  have e: "evaluate (self_model ?a) [''a'' \<mapsto> \<lparr>shape = [1, 2, 1], data = [7, 8]\<rparr>]
      = Inr [''a'' \<mapsto> \<lparr>shape = [1, 2, 1], data = [7, 8]\<rparr>]"
    by (simp add: adapter_def identity_model_def)
  have h3: "\<forall>d. fst (tensor_to_dictionary ?a ?x) = Inr d \<longrightarrow>
           (\<exists>y. evaluate (self_model ?a) d = Inr y
              \<and> (\<forall>name\<in>set (output_order ?a). \<exists>t. y name = Some t \<and> shape t = [1, 2, 1]))"
    using s e by (simp add: oo)
  from forward_shape [OF h1 h2 h3] h1 show ?thesis by (simp add: oo)
qed

text \<open>
  C1 as stated fails when \<open>n = 1\<close>: with one output name, \<open>b = 2\<close> and \<open>n = 1\<close>, the model
  returning a tensor of shape \<open>[2, 1, 1]\<close>, the result has shape \<open>[2]\<close>, which is
  neither \<open>[b, n] = [2, 1]\<close> nor \<open>[n] = [1]\<close>.
\<close>

theorem forward_shape_single_sample_counterexample:
  "fst (tensor_to_dictionary (adapter identity_model [''a''] [''a''])
          \<lparr>shape = [2, 1, 1], data = [7, 8]\<rparr>)
     = Inr [''a'' \<mapsto> \<lparr>shape = [2, 1, 1], data = [7, 8]\<rparr>]
   \<and> evaluate (self_model (adapter identity_model [''a''] [''a'']))
        [''a'' \<mapsto> \<lparr>shape = [2, 1, 1], data = [7, 8]\<rparr>]
     = Inr [''a'' \<mapsto> \<lparr>shape = [2, 1, 1], data = [7, 8]\<rparr>]
   \<and> fst (forward (adapter identity_model [''a''] [''a''])
          \<lparr>shape = [2, 1, 1], data = [7, 8]\<rparr>)
     = Inr \<lparr>shape = [2], data = [7, 8]\<rparr>
   \<and> [2] \<noteq> [2, 1 :: nat] \<and> [2] \<noteq> [1 :: nat]"
proof -
  have "fst (forward (adapter identity_model [''a''] [''a''])
          \<lparr>shape = [2, 1, 1], data = [7, 8]\<rparr>)
     = Inr \<lparr>shape = [2], data = [7, 8]\<rparr>"
    by code_simp
  moreover have "[0..<2] = [0, 1 :: nat]" by code_simp
  ultimately show ?thesis
    by (simp add: tensor_to_dictionary_def adapter_def enumerate_eq_zip select_last_def
        unsqueeze_last_def identity_model_def)
qed

section \<open>Splitting and reassembling\<close>

lemma take_rows:
  "p * k \<le> length xs \<Longrightarrow>
   concat (map (\<lambda>j. map (\<lambda>i. xs ! (j * k + i)) [0..<k]) [0..<p]) = take (p * k) xs"
proof (induction p)
  case 0
  show ?case by simp
next
  case (Suc p)
  then have le: "p * k + k \<le> length xs" by (simp add: add.commute)
  have row: "map (\<lambda>i. xs ! (p * k + i)) [0..<k] = take k (drop (p * k) xs)"
    using le by (intro nth_equalityI) simp_all
  from Suc have "concat (map (\<lambda>j. map (\<lambda>i. xs ! (j * k + i)) [0..<k]) [0..<p]) = take (p * k) xs"
    by simp
  then have "concat (map (\<lambda>j. map (\<lambda>i. xs ! (j * k + i)) [0..<k]) [0..<Suc p])
      = take (p * k) xs @ take k (drop (p * k) xs)"
    by (simp add: row)
  also have "\<dots> = take (p * k + k) xs"
    by (simp add: take_add)
  finally show ?case by (simp add: add.commute)
qed

lemma concat_rows:
  "length xs = p * k \<Longrightarrow>
   concat (map (\<lambda>j. map (\<lambda>i. xs ! (j * k + i)) [0..<k]) [0..<p]) = xs"
  by (simp add: take_rows)

lemma distinct_not_later:
  "distinct names \<Longrightarrow> i < length names \<Longrightarrow> names ! i \<notin> set (drop (Suc i) names)"
  by (metis Cons_nth_drop_Suc distinct.simps(2) distinct_drop)

lemma map_over_names:
  "map f names = map (\<lambda>i. f (names ! i)) [0..<length names]"
  by (intro nth_equalityI) simp_all

lemma split_of_distinct_names:
  fixes self :: "('a, 'nn, 'e) LUMEModule"
  assumes ne: "shape x \<noteq> []"
    and len: "length (self_feature_order self) \<le> last (shape x)"
    and dist: "distinct (self_feature_order self)"
  shows "\<exists>d. fst (tensor_to_dictionary self x) = Inr d
           \<and> (\<forall>i<length (self_feature_order self).
                 d (self_feature_order self ! i) = Some (last_axis_slice x i))"
proof -
  from len have "0 + length (self_feature_order self) \<le> last (shape x)" by simp
  from loop_in_range [OF ne this, of Map.empty, where ?'e = 'e] obtain d where
    d: "(tensor_to_dictionary_loop x (enumerate 0 (self_feature_order self)) Map.empty
           :: 'e error + 'a dictionary) = Inr d"
    and at: "\<forall>i<length (self_feature_order self).
        self_feature_order self ! i \<notin> set (drop (Suc i) (self_feature_order self)) \<longrightarrow>
        d (self_feature_order self ! i) = Some (last_axis_slice x (0 + i))"
    by blast
  from at dist have "\<forall>i<length (self_feature_order self).
      d (self_feature_order self ! i) = Some (last_axis_slice x i)"
    by (simp add: distinct_not_later)
  moreover from d have "fst (tensor_to_dictionary self x) = Inr d"
    by (simp add: tensor_to_dictionary_def)
  ultimately show ?thesis by blast
qed

lemma squeeze_twice_with_singleton:
  "data x = xs \<Longrightarrow> shape x = [b, n, k] \<Longrightarrow>
   squeeze (squeeze \<lparr>shape = [b, n, 1] @ [k], data = xs\<rparr>) = squeeze x"
  by (cases x) (simp add: squeeze_def)

text \<open>
  C3, as amended. For a tensor \<open>x\<close> of shape \<open>[b, n, k]\<close> with \<open>k\<close> at least 1, when
  \<open>feature_order\<close> and \<open>output_order\<close> are the same list of \<open>k\<close> pairwise distinct names
  and the wrapped model returns the mapping it is given, \<open>forward\<close> returns the values
  of \<open>x\<close>, in their order, with the singleton dimensions of its shape removed.
\<close>

theorem forward_identity_round_trip:
  fixes self :: "('a, 'nn, 'e) LUMEModule"
  assumes "shape x = [b, n, k]" and "well_formed x" and "1 \<le> k"
    and "feature_order self = output_order self"
    and "length (feature_order self) = k"
    and "distinct (feature_order self)"
    and "\<forall>d. evaluate (self_model self) d = Inr d"
  shows "fst (forward self x) = Inr (squeeze x)"
proof -
  let ?names = "self_feature_order self"
  from assms(4) have oo: "self_output_order self = ?names"
    by (simp add: feature_order_def output_order_def)
  from assms(5) have k: "length ?names = k" by (simp add: feature_order_def)
  from assms(6) have dist: "distinct ?names" by (simp add: feature_order_def)
  from assms(1) have ne: "shape x \<noteq> []" and last: "last (shape x) = k"
    and rank: "\<not> dim x \<le> 1"
    by (simp_all add: dim_def)
  from split_of_distinct_names [OF ne _ dist] k last obtain d where
    d: "fst (tensor_to_dictionary self x) = Inr d"
    and at: "\<forall>i<k. d (?names ! i) = Some (last_axis_slice x i)"
    by auto
  have slice_shape: "\<And>i. shape (last_axis_slice x i) = [b, n, 1]"
    by (simp add: last_axis_slice_def assms(1))
  have sh: "\<forall>name\<in>set (self_output_order self). \<exists>t. d name = Some t \<and> shape t = [b, n, 1]"
    using at k slice_shape by (auto simp: oo in_set_conv_nth)
  from assms(3) k have nonempty: "self_output_order self \<noteq> []"
    by (auto simp: oo)
  have row: "map (\<lambda>name. data (the (d name)) ! j) ?names = map (\<lambda>i. data x ! (j * k + i)) [0..<k]"
    if "j < b * n" for j
  proof -
    have "map (\<lambda>name. data (the (d name)) ! j) ?names
        = map (\<lambda>i. data (the (d (?names ! i))) ! j) [0..<k]"
      using map_over_names [of "\<lambda>name. data (the (d name)) ! j" ?names] by (simp add: k)
    also have "\<dots> = map (\<lambda>i. data x ! (j * k + i)) [0..<k]"
      using at that by (simp add: last_axis_slice_def assms(1))
    finally show ?thesis .
  qed
  from assms(1,2) have "length (data x) = (b * n) * k"
    by (simp add: well_formed_def)
  then have c: "concat (map (\<lambda>j. map (\<lambda>i. data x ! (j * k + i)) [0..<k]) [0..<b * n]) = data x"
    by (rule concat_rows)
  have m: "map (\<lambda>j. map (\<lambda>name. data (the (d name)) ! j) ?names) [0..<b * n]
      = map (\<lambda>j. map (\<lambda>i. data x ! (j * k + i)) [0..<k]) [0..<b * n]"
    by (rule map_cong) (simp_all add: row)
  have dat: "concat (map (\<lambda>j. map (\<lambda>name. data (the (d name)) ! j) ?names) [0..<b * n]) = data x"
    by (simp only: m c)
  from dictionary_to_tensor_common_shape [OF nonempty sh]
  have "fst (dictionary_to_tensor self d) = Inr (squeeze \<lparr>shape = [b, n, 1] @ [k], data = data x\<rparr>)"
    by (simp add: oo k dat)
  with rank d assms(7) have "fst (forward self x)
      = Inr (squeeze (squeeze \<lparr>shape = [b, n, 1] @ [k], data = data x\<rparr>))"
    by (simp add: forward_unfold)
  then show ?thesis
    using squeeze_twice_with_singleton [OF refl assms(1)] by simp
qed

theorem forward_identity_round_trip_witness:
  "well_formed \<lparr>shape = [2, 3, 2], data = [1, 2, 3, 4, 5, 6, 7, 8, 9, 10, 11, 12 :: int]\<rparr>
   \<and> distinct (feature_order (adapter identity_model [''a'', ''b''] [''a'', ''b'']))
   \<and> fst (forward (adapter identity_model [''a'', ''b''] [''a'', ''b''])
            \<lparr>shape = [2, 3, 2], data = [1, 2, 3, 4, 5, 6, 7, 8, 9, 10, 11, 12]\<rparr>)
       = Inr \<lparr>shape = [2, 3, 2], data = [1, 2, 3, 4, 5, 6, 7, 8, 9, 10, 11, 12]\<rparr>"
proof -
  let ?a = "adapter identity_model [''a'', ''b''] [''a'', ''b'']"
  let ?x = "\<lparr>shape = [2, 3, 2], data = [1, 2, 3, 4, 5, 6, 7, 8, 9, 10, 11, 12 :: int]\<rparr>"
  have fo: "feature_order ?a = [''a'', ''b'']" and oo: "output_order ?a = [''a'', ''b'']"
    by (simp_all add: feature_order_def output_order_def adapter_def)
  have h1: "shape ?x = [2, 3, 2]" by simp
  have h2: "well_formed ?x" by (simp add: well_formed_def)
  have h3: "(1 :: nat) \<le> 2" by simp
  have h4: "feature_order ?a = output_order ?a" by (simp add: fo oo)
  have h5: "length (feature_order ?a) = 2" by (simp add: fo)
  have h6: "distinct (feature_order ?a)" by (simp add: fo)
  have h7: "\<forall>d. evaluate (self_model ?a) d = Inr d"
    by (simp add: adapter_def identity_model_def)
  have sq: "squeeze ?x = ?x" by (simp add: squeeze_def)
  from forward_identity_round_trip [OF h1 h2 h3 h4 h5 h6 h7] h2 h6 sq
  show ?thesis by simp
qed

text \<open>
  C3 as stated fails when a name is repeated: with \<open>feature_order = output_order =
  ["a", "a"]\<close> and the identity model, both outputs are the column at index 1, so the
  result holds 2, 2, 4, 4 where the input holds 1, 2, 3, 4.
\<close>

theorem forward_round_trip_duplicate_name_counterexample:
  "fst (forward (adapter identity_model [''a'', ''a''] [''a'', ''a''])
          \<lparr>shape = [2, 1, 2], data = [1, 2, 3, 4]\<rparr>)
     = Inr \<lparr>shape = [2, 2], data = [2, 2, 4, 4]\<rparr>
   \<and> squeeze \<lparr>shape = [2, 1, 2], data = [1, 2, 3, 4 :: int]\<rparr>
     = \<lparr>shape = [2, 2], data = [1, 2, 3, 4]\<rparr>"
proof -
  have "fst (forward (adapter identity_model [''a'', ''a''] [''a'', ''a''])
          \<lparr>shape = [2, 1, 2], data = [1, 2, 3, 4]\<rparr>)
     = Inr \<lparr>shape = [2, 2], data = [2, 2, 4, 4]\<rparr>"
    by code_simp
  then show ?thesis by (simp add: squeeze_def)
qed

end
